theory Spec2Isabelle
  imports Complex_Main "HOL-Library.Sublist"
begin

section \<open>Python strings\<close>

text \<open>
  A Python \<open>str\<close> is modelled as a HOL \<open>string\<close>, one \<open>char\<close> per code point, which
  covers the code points 0 to 255 (ASCII and Latin-1). The built-in string methods the
  server calls are written out below on that range.
\<close>

definition lower_char :: "char \<Rightarrow> char" where
  \<comment> \<open>\<open>str.lower\<close> on one code point: A-Z, and the Latin-1 capitals other than the
      multiplication sign, move up by 32.\<close>
  "lower_char c =
     (let n = (of_char c :: nat)
      in if (65 \<le> n \<and> n \<le> 90) \<or> (192 \<le> n \<and> n \<le> 222 \<and> n \<noteq> 215)
         then char_of (n + 32) else c)"

definition lower :: "string \<Rightarrow> string" where
  "lower s = map lower_char s"

definition replace :: "char \<Rightarrow> string \<Rightarrow> string \<Rightarrow> string" where
  \<comment> \<open>\<open>s.replace(old, new)\<close> for a one-character \<open>old\<close>.\<close>
  "replace old new s = concat (map (\<lambda>c. if c = old then new else [c]) s)"

definition strip_chars :: "char list \<Rightarrow> string \<Rightarrow> string" where
  \<comment> \<open>\<open>s.strip(chars)\<close>: drops leading and trailing characters that are in \<open>chars\<close>.\<close>
  "strip_chars chars s =
     rev (dropWhile (\<lambda>c. c \<in> set chars) (rev (dropWhile (\<lambda>c. c \<in> set chars) s)))"

definition isspace :: "char \<Rightarrow> bool" where
  \<comment> \<open>\<open>str.isspace\<close> on one code point below 256.\<close>
  "isspace c =
     (let n = (of_char c :: nat)
      in (9 \<le> n \<and> n \<le> 13) \<or> (28 \<le> n \<and> n \<le> 32) \<or> n = 133 \<or> n = 160)"

definition strip :: "string \<Rightarrow> string" where
  \<comment> \<open>\<open>s.strip()\<close>: drops leading and trailing whitespace.\<close>
  "strip s = rev (dropWhile isspace (rev (dropWhile isspace s)))"

definition truthy :: "string option \<Rightarrow> bool" where
  \<comment> \<open>Truth value of a Python expression that is \<open>None\<close> or a \<open>str\<close>.\<close>
  "truthy v = (case v of None \<Rightarrow> False | Some s \<Rightarrow> s \<noteq> [])"

section \<open>Utilities: \<open>slugify\<close>\<close>

definition lower_alnum :: "char \<Rightarrow> bool" where
  \<comment> \<open>The character class \<open>[a-z0-9]\<close>.\<close>
  "lower_alnum c =
     (let n = (of_char c :: nat)
      in (97 \<le> n \<and> n \<le> 122) \<or> (48 \<le> n \<and> n \<le> 57))"

definition slug_char :: "char \<Rightarrow> bool" where
  \<comment> \<open>The character class \<open>[a-z0-9\-]\<close>.\<close>
  "slug_char c = (lower_alnum c \<or> c = CHR ''-'')"

definition sub_non_slug_chars :: "string \<Rightarrow> string" where
  \<comment> \<open>\<open>re.sub(r"[^a-z0-9\-]+", "", s)\<close>: every run of characters outside the class is
      deleted, so exactly the characters of the class stay.\<close>
  "sub_non_slug_chars s = filter slug_char s"

fun sub_hyphen_runs :: "string \<Rightarrow> string" where
  \<comment> \<open>\<open>re.sub(r"-{2,}", "-", s)\<close>: of a run of two or more hyphens one hyphen stays.\<close>
  "sub_hyphen_runs (a # b # cs) =
     (if a = CHR ''-'' \<and> b = CHR ''-'' then sub_hyphen_runs (b # cs)
      else a # sub_hyphen_runs (b # cs))"
| "sub_hyphen_runs cs = cs"

definition slugify :: "string \<Rightarrow> string" where
  "slugify text =
     (let s = lower text;
          s = replace CHR '')'' [] (replace CHR ''('' [] s);
          s = replace CHR ''&'' ''and'' (replace CHR '' '' ''-'' (replace CHR ''/'' ''-'' s));
          s = sub_non_slug_chars s;
          s = strip_chars ''-'' (sub_hyphen_runs s)
      in s)"

fun slug_re_from :: "bool \<Rightarrow> string \<Rightarrow> bool" where
  \<comment> \<open>Matcher for the rest of \<open>^[a-z0-9]+(-[a-z0-9]+)*$\<close>; \<open>in_run\<close> says that the
      character before was one of \<open>[a-z0-9]\<close>.\<close>
  "slug_re_from in_run [] = in_run"
| "slug_re_from in_run (c # cs) =
     (if c = CHR ''-'' then in_run \<and> slug_re_from False cs
      else lower_alnum c \<and> slug_re_from True cs)"

definition matches_slug_re :: "string \<Rightarrow> bool" where
  \<comment> \<open>The spec's pattern \<open>^[a-z0-9]+(-[a-z0-9]+)*$\<close>.\<close>
  "matches_slug_re s = slug_re_from False s"

fun no_hyphen_pair :: "string \<Rightarrow> bool" where
  "no_hyphen_pair (a # b # cs) =
     (\<not> (a = CHR ''-'' \<and> b = CHR ''-'') \<and> no_hyphen_pair (b # cs))"
| "no_hyphen_pair cs = True"

definition slug_shape :: "string \<Rightarrow> bool" where
  \<comment> \<open>Proof invariant: only slug characters, no two hyphens in a row, no hyphen at
      either end.\<close>
  "slug_shape s = (list_all slug_char s \<and> no_hyphen_pair s \<and>
      (s = [] \<or> (hd s \<noteq> CHR ''-'' \<and> last s \<noteq> CHR ''-'')))"

section \<open>Exceptions and indexing\<close>

datatype exn = IndexError | KeyError | ValueError | RequestException

definition item :: "'a list \<Rightarrow> nat \<Rightarrow> exn + 'a" where
  \<comment> \<open>\<open>xs[i]\<close> for \<open>i \<ge> 0\<close>: out of range raises \<open>IndexError\<close>.\<close>
  "item xs i = (if i < length xs then Inr (xs ! i) else Inl IndexError)"

definition and_then :: "exn + 'a \<Rightarrow> ('a \<Rightarrow> exn + 'b) \<Rightarrow> exn + 'b" where
  \<comment> \<open>Sequencing: an exception raised by the first step ends the computation.\<close>
  "and_then r f = (case r of Inl e \<Rightarrow> Inl e | Inr x \<Rightarrow> f x)"

section \<open>Utilities: the result cache\<close>

text \<open>
  \<open>CACHE\<close> maps a key to a pair of the time of the write and the value. The clock
  reading \<open>time.time()\<close> is an argument of both operations; times are real numbers of
  seconds. \<open>cache_get\<close> returns the value read (\<open>None\<close> is a miss) and the cache it leaves.
  A stored pair is a non-empty tuple, so \<open>not hit\<close> holds only for an absent key.
\<close>

type_synonym 'v cache = "string \<rightharpoonup> (real \<times> 'v)"

definition CACHE_TTL_SECONDS :: real where
  "CACHE_TTL_SECONDS = 60 * 60 * 6"

definition cache_get :: "real \<Rightarrow> string \<Rightarrow> 'v cache \<Rightarrow> 'v option \<times> 'v cache" where
  "cache_get now key CACHE =
     (case CACHE key of
        None \<Rightarrow> (None, CACHE)
      | Some (ts, val) \<Rightarrow>
          if now - ts > CACHE_TTL_SECONDS then (None, CACHE(key := None))
          else (Some val, CACHE))"

definition cache_set :: "real \<Rightarrow> string \<Rightarrow> 'v \<Rightarrow> 'v cache \<Rightarrow> 'v cache" where
  "cache_set now key val CACHE = CACHE(key \<mapsto> (now, val))"

section \<open>Station search\<close>

text \<open>
  The HTML parser is a library outside the repository. The extraction code is modelled on
  what the parser hands to it: \<open>rows\<close> is the list \<open>soup.select("table.dropdowntable tr")\<close>,
  \<open>find_all_td\<close> of a row is the list \<open>row.find_all("td")\<close>, and \<open>td_text\<close> of a cell is its
  \<open>.text\<close>.
\<close>

record td =
  td_text :: string

record tr =
  find_all_td :: "td list"

record station_match =
  sm_id :: string
  sm_code :: string
  sm_name :: string
  sm_division :: string
  sm_full :: string
  sm_location :: string

definition station_pair :: "tr \<Rightarrow> tr \<Rightarrow> exn + station_match option" where
  \<comment> \<open>The body of the loop for one pair of rows; \<open>None\<close> is \<open>continue\<close>.\<close>
  "station_pair main_row sub_row =
     (let main = find_all_td main_row; sub = find_all_td sub_row
      in if length main < 5 \<or> length sub < 3 then Inr None
         else
           and_then (item main 0) (\<lambda>c0.
           and_then (item main 1) (\<lambda>c1.
           and_then (item main 2) (\<lambda>c2.
           and_then (item main 3) (\<lambda>c3.
           and_then (item main 4) (\<lambda>c4.
           and_then (item sub 2) (\<lambda>e2.
             Inr (Some \<lparr>sm_id = strip (td_text c0), sm_code = strip (td_text c1),
                        sm_name = strip (td_text c2), sm_division = strip (td_text c3),
                        sm_full = strip (td_text c4),
                        sm_location = strip (td_text e2)\<rparr>))))))))"

function station_loop :: "tr list \<Rightarrow> nat \<Rightarrow> station_match list \<Rightarrow> exn + station_match list" where
  \<comment> \<open>\<open>for i in range(0, max(0, len(rows)-2), 2)\<close>, from index \<open>i\<close> on.\<close>
  "station_loop rows i results =
     (if int i < max 0 (int (length rows) - 2) then
        and_then (item rows i) (\<lambda>main_row.
        and_then (item rows (i + 1)) (\<lambda>sub_row.
        and_then (station_pair main_row sub_row) (\<lambda>m.
          station_loop rows (i + 2)
            (case m of None \<Rightarrow> results | Some x \<Rightarrow> results @ [x]))))
      else Inr results)"
  by pat_completeness auto
termination
  by (relation "measure (\<lambda>(rows, i, results). length rows - i)") auto

declare station_loop.simps [simp del]

definition station_search :: "tr list \<Rightarrow> exn + station_match list" where
  \<comment> \<open>Lines 83 to 104: the extraction from the selected rows.\<close>
  "station_search rows = station_loop rows 0 []"

fun scanned_pairs :: "tr list \<Rightarrow> (tr \<times> tr) list" where
  \<comment> \<open>The row pairs that are followed by at least one more row.\<close>
  "scanned_pairs (m # s # r # rest) = (m, s) # scanned_pairs (r # rest)"
| "scanned_pairs rows = []"

definition well_formed :: "tr \<Rightarrow> tr \<Rightarrow> bool" where
  "well_formed m s = (5 \<le> length (find_all_td m) \<and> 3 \<le> length (find_all_td s))"

definition match_of :: "tr \<Rightarrow> tr \<Rightarrow> station_match" where
  "match_of m s =
     \<lparr>sm_id = strip (td_text (find_all_td m ! 0)), sm_code = strip (td_text (find_all_td m ! 1)),
      sm_name = strip (td_text (find_all_td m ! 2)),
      sm_division = strip (td_text (find_all_td m ! 3)),
      sm_full = strip (td_text (find_all_td m ! 4)),
      sm_location = strip (td_text (find_all_td s ! 2))\<rparr>"

definition matches_of :: "(tr \<times> tr) list \<Rightarrow> station_match list" where
  "matches_of ps = map (\<lambda>(m, s). match_of m s) (filter (\<lambda>(m, s). well_formed m s) ps)"

section \<open>Departures\<close>

text \<open>
  A block is one element of \<open>soup.select('div[style*="line-height:20px;"]')\<close>. The model
  holds, for each block, the results of the parser calls the code makes on it:
  \<open>find_all_a_href\<close> is \<open>block.find_all("a", href=True)\<close> in document order,
  \<open>next_siblings\<close> is the list of the elements that follow the block under the same
  parent, in document order, each with the parser's verdict \<open>is_reg_trnsumm_div\<close> on
  whether it is a \<open>div\<close> of class \<open>reg trnsumm\<close>, and with its attribute \<open>t\<close>,
  \<open>child_divs\<close> is \<open>block.find_all("div", recursive=False)\<close>, and \<open>border_cells\<close> is
  \<open>block.select("div.tdborder, div.tdborderhighlight, div.tdborderlast")\<close>. Of a cell,
  \<open>get_text\<close> is \<open>get_text(strip=True)\<close> and \<open>find_a_href\<close> is \<open>find("a", href=True)\<close>.
  An element found is always true as a condition; an absent one is \<open>None\<close>.
\<close>

record anchor =
  href :: string
  title :: "string option"

record cell =
  get_text :: string
  find_a_href :: "anchor option"

record sibling =
  is_reg_trnsumm_div :: bool
  t_attr :: "string option"

record block =
  find_all_a_href :: "anchor list"
  next_siblings :: "sibling list"
  child_divs :: "cell list"
  border_cells :: "cell list"

definition or_else :: "string option \<Rightarrow> string \<Rightarrow> string" where
  \<comment> \<open>\<open>a or b\<close> for \<open>a\<close> that is \<open>None\<close> or a \<open>str\<close>.\<close>
  "or_else a b = (case a of None \<Rightarrow> b | Some s \<Rightarrow> if s = [] then b else s)"

definition dest_param :: "string option \<Rightarrow> string" where
  \<comment> \<open>Line 116: \<open>str(data.get("dest", "")).strip() or "0"\<close>; the argument is the value
      of the key \<open>dest\<close> of the request body, a string when the key is there.\<close>
  "dest_param v = or_else (Some (strip (case v of None \<Rightarrow> [] | Some d \<Rightarrow> d))) ''0''"

definition timetable_marker :: string where
  "timetable_marker = ''/train/timetable/''"

definition isdigit :: "char \<Rightarrow> bool" where
  \<comment> \<open>The class \<open>\d\<close> on code points below 256.\<close>
  "isdigit c = (let n = (of_char c :: nat) in 48 \<le> n \<and> n \<le> 57)"

definition match_here :: "string \<Rightarrow> (string \<times> string) option" where
  \<comment> \<open>\<open>/train/timetable/([^/]+)/(\d+)\<close> matched at the start of \<open>s\<close>: the two groups.
      Both repetitions are greedy, and a shorter first group is never followed by a
      slash, so the first group is the whole run up to the next slash.\<close>
  "match_here s =
     (if prefix timetable_marker s then
        (let rest = drop (length timetable_marker) s;
             slug = takeWhile (\<lambda>c. c \<noteq> CHR ''/'') rest;
             after = dropWhile (\<lambda>c. c \<noteq> CHR ''/'') rest
         in if slug = [] \<or> after = [] then None
            else (let digits = takeWhile isdigit (tl after)
                  in if digits = [] then None else Some (slug, digits)))
      else None)"

fun re_search_timetable :: "string \<Rightarrow> (string \<times> string) option" where
  \<comment> \<open>\<open>re.search\<close> of that pattern: the match at the leftmost position that has one.\<close>
  "re_search_timetable [] = None"
| "re_search_timetable (c # cs) =
     (case match_here (c # cs) of
        Some g \<Rightarrow> Some g
      | None \<Rightarrow> re_search_timetable cs)"

definition select_one_timetable_a :: "block \<Rightarrow> anchor option" where
  \<comment> \<open>\<open>block.select_one("a[href*='/train/timetable/']")\<close>: the first \<open>a\<close> of the block
      whose \<open>href\<close> contains the marker.\<close>
  "select_one_timetable_a b = find (\<lambda>a. sublist timetable_marker (href a)) (find_all_a_href b)"

definition find_name_anchor :: "block \<Rightarrow> anchor option" where
  \<comment> \<open>Lines 132 to 139.\<close>
  "find_name_anchor b =
     (case find (\<lambda>a. sublist timetable_marker (href a)) (find_all_a_href b) of
        Some a \<Rightarrow> Some a
      | None \<Rightarrow> select_one_timetable_a b)"

definition anchor_ids :: "anchor option \<Rightarrow> string option \<times> string option" where
  \<comment> \<open>Lines 141 to 147: \<open>(timetable_slug, internal_id)\<close>.\<close>
  "anchor_ids name_anchor =
     (case name_anchor of
        None \<Rightarrow> (None, None)
      | Some a \<Rightarrow>
          (case re_search_timetable (href a) of
             None \<Rightarrow> (None, None)
           | Some (slug, ident) \<Rightarrow> (Some slug, Some ident)))"

definition find_next_sibling_trnsumm :: "block \<Rightarrow> sibling option" where
  \<comment> \<open>\<open>block.find_next_sibling("div", class_="reg trnsumm")\<close>: the first of the
      following siblings that matches.\<close>
  "find_next_sibling_trnsumm b = find is_reg_trnsumm_div (next_siblings b)"

definition sibling_id :: "block \<Rightarrow> string option \<Rightarrow> string option" where
  \<comment> \<open>Lines 149 to 152: \<open>internal_id\<close> after the fallback.\<close>
  "sibling_id b internal_id =
     (if \<not> truthy internal_id then
        (case find_next_sibling_trnsumm b of
           None \<Rightarrow> internal_id
         | Some trn \<Rightarrow> (case t_attr trn of None \<Rightarrow> internal_id | Some t \<Rightarrow> Some t))
      else internal_id)"

definition block_ids :: "block \<Rightarrow> string option \<times> string option" where
  \<comment> \<open>\<open>(timetable_slug, internal_id)\<close> at line 154.\<close>
  "block_ids b =
     (let (timetable_slug, internal_id) = anchor_ids (find_name_anchor b)
      in (timetable_slug, sibling_id b internal_id))"

record cell_values =
  v_train_no :: "string option"
  v_name :: "string option"
  v_ttype :: "string option"
  v_zone :: "string option"
  v_platform :: "string option"
  v_from_stn :: "string option"
  v_dep_time :: "string option"
  v_to_stn :: "string option"
  v_arr_time :: "string option"

definition cell_text :: "cell list \<Rightarrow> nat \<Rightarrow> string option" where
  \<comment> \<open>The local function \<open>t(i)\<close>.\<close>
  "cell_text cells i = (if i < length cells then Some (get_text (cells ! i)) else None)"

definition title_name :: "string \<Rightarrow> string" where
  \<comment> \<open>\<open>title.split("|")[0].strip()\<close>.\<close>
  "title_name ti = strip (takeWhile (\<lambda>c. c \<noteq> CHR ''|'') ti)"

definition read_direct :: "block \<Rightarrow> anchor option \<Rightarrow> cell_values" where
  \<comment> \<open>Lines 157 to 164.\<close>
  "read_direct b name_anchor =
     (let cells = child_divs b
      in \<lparr>v_train_no = cell_text cells 0,
          v_name = (case name_anchor of
                      None \<Rightarrow> cell_text cells 1
                    | Some a \<Rightarrow> (case title a of
                                   None \<Rightarrow> cell_text cells 1
                                 | Some ti \<Rightarrow> Some (title_name ti))),
          v_ttype = cell_text cells 2, v_zone = cell_text cells 3,
          v_platform = cell_text cells 5, v_from_stn = cell_text cells 4,
          v_dep_time = cell_text cells 6, v_to_stn = cell_text cells 7,
          v_arr_time = cell_text cells 9\<rparr>)"

definition read_routed :: "block \<Rightarrow> cell_values" where
  \<comment> \<open>Lines 166 to 178.\<close>
  "read_routed b =
     (let cells = border_cells b
      in \<lparr>v_train_no = cell_text cells 0,
          v_name = (if cells \<noteq> [] \<and> length cells > 1 then
                      (case find_a_href (cells ! 1) of
                         None \<Rightarrow> cell_text cells 1
                       | Some a \<Rightarrow> (case title a of
                                      None \<Rightarrow> cell_text cells 1
                                    | Some ti \<Rightarrow> Some (title_name ti)))
                    else cell_text cells 1),
          v_ttype = cell_text cells 2, v_zone = cell_text cells 3,
          v_platform = cell_text cells 4, v_from_stn = cell_text cells 6,
          v_dep_time = cell_text cells 7, v_to_stn = cell_text cells 8,
          v_arr_time = cell_text cells 9\<rparr>)"

definition read_cells :: "string \<Rightarrow> block \<Rightarrow> cell_values" where
  \<comment> \<open>Lines 156 to 178: the branch on \<open>dest != "0"\<close>.\<close>
  "read_cells dest b =
     (if dest \<noteq> ''0'' then read_direct b (find_name_anchor b) else read_routed b)"

record departure =
  d_train_no :: "string option"
  d_name :: "string option"
  d_type :: "string option"
  d_zone :: "string option"
  d_platform :: "string option"
  d_from :: "string option"
  d_departure_time :: "string option"
  d_to :: "string option"
  d_arrival_time :: "string option"
  d_train_url :: "string option"

definition train_url_of :: "string \<Rightarrow> string \<Rightarrow> string \<Rightarrow> string \<Rightarrow> string" where
  \<comment> \<open>\<open>f"/train/timetable/{slug}/{internal_id}/{station_id}/{dest}"\<close>.\<close>
  "train_url_of slug internal_id station_id dest =
     ''/train/timetable/'' @ slug @ ''/'' @ internal_id @ ''/'' @ station_id @ ''/'' @ dest"

definition parse_block :: "string \<Rightarrow> string \<Rightarrow> block \<Rightarrow> departure option" where
  \<comment> \<open>The body of the loop over the blocks; \<open>None\<close> is \<open>continue\<close>.\<close>
  "parse_block station_id dest b =
     (let (timetable_slug, internal_id) = block_ids b;
          v = read_cells dest b
      in case (v_train_no v, v_name v) of
           (Some train_no, Some name) \<Rightarrow>
             if train_no = [] \<or> name = [] then None
             else
               (let slug = or_else timetable_slug (slugify (name @ ''-'' @ train_no));
                    train_url =
                      (case internal_id of
                         None \<Rightarrow> None
                       | Some ident \<Rightarrow>
                           if ident = [] then None
                           else Some (train_url_of slug ident station_id dest))
                in Some \<lparr>d_train_no = Some train_no, d_name = Some name,
                          d_type = v_ttype v, d_zone = v_zone v,
                          d_platform = v_platform v, d_from = v_from_stn v,
                          d_departure_time = v_arr_time v, d_to = v_to_stn v,
                          d_arrival_time = v_dep_time v, d_train_url = train_url\<rparr>)
         | _ \<Rightarrow> None)"

fun departures :: "string \<Rightarrow> string \<Rightarrow> block list \<Rightarrow> departure list" where
  \<comment> \<open>Lines 123 to 199: the records appended to \<open>trains\<close>, in order.\<close>
  "departures station_id dest [] = []"
| "departures station_id dest (b # blocks) =
     (case parse_block station_id dest b of
        None \<Rightarrow> departures station_id dest blocks
      | Some r \<Rightarrow> r # departures station_id dest blocks)"

section \<open>Timetable\<close>

text \<open>
  A stop marker is one element of \<open>soup.select('div[style*="width:35px;"]')\<close>;
  \<open>parent_child_divs\<close> is \<open>row.parent.find_all("div", recursive=False)\<close>.
\<close>

record stop_marker =
  parent_child_divs :: "cell list"

record timetable_row =
  tt_code :: string
  tt_station_name :: string
  tt_arrives :: string
  tt_departs :: string
  tt_platform :: string

definition timetable_stop :: "stop_marker \<Rightarrow> exn + timetable_row option" where
  \<comment> \<open>The body of the loop for one marker; \<open>None\<close> is \<open>continue\<close>.\<close>
  "timetable_stop row =
     (let cells = parent_child_divs row
      in if length cells < 17 then Inr None
         else
           and_then (item cells 2) (\<lambda>c2.
           and_then (item cells 3) (\<lambda>c3.
           and_then (item cells 6) (\<lambda>c6.
           and_then (item cells 8) (\<lambda>c8.
           and_then (item cells 11) (\<lambda>c11.
             Inr (Some \<lparr>tt_code = get_text c2, tt_station_name = get_text c3,
                        tt_arrives = get_text c6, tt_departs = get_text c8,
                        tt_platform = get_text c11\<rparr>)))))))"

fun timetable_loop :: "stop_marker list \<Rightarrow> timetable_row list \<Rightarrow> exn + timetable_row list" where
  "timetable_loop [] results = Inr results"
| "timetable_loop (row # rows) results =
     and_then (timetable_stop row) (\<lambda>m.
       timetable_loop rows (case m of None \<Rightarrow> results | Some x \<Rightarrow> results @ [x]))"

definition timetable :: "stop_marker list \<Rightarrow> exn + timetable_row list" where
  \<comment> \<open>Lines 217 to 236.\<close>
  "timetable rows = timetable_loop rows []"

definition timetable_row_of :: "stop_marker \<Rightarrow> timetable_row" where
  "timetable_row_of row =
     (let cells = parent_child_divs row
      in \<lparr>tt_code = get_text (cells ! 2), tt_station_name = get_text (cells ! 3),
          tt_arrives = get_text (cells ! 6), tt_departs = get_text (cells ! 8),
          tt_platform = get_text (cells ! 11)\<rparr>)"

section \<open>Geocoding\<close>

text \<open>
  The HTTP call is outside the repository. Its outcome is an argument: \<open>Inl e\<close> when
  \<open>requests.get\<close> raised (a timeout or a transport failure), else the response, of
  which the code reads the status and the decoded body. \<open>float_lat\<close> and \<open>float_lon\<close> of
  an entry are the outcomes of \<open>float(entry["lat"])\<close> and \<open>float(entry["lon"])\<close>.
\<close>

record geo_entry =
  float_lat :: "exn + real"
  float_lon :: "exn + real"

record geo_response =
  status_code :: int
  json :: "exn + geo_entry list"

definition geocode_station :: "exn + geo_response \<Rightarrow> exn + (real \<times> real) option" where
  "geocode_station got =
     and_then got (\<lambda>r.
       if status_code r \<noteq> 200 then Inr None
       else
         and_then (json r) (\<lambda>arr.
           if arr = [] then Inr None
           else
             and_then (item arr 0) (\<lambda>first.
             and_then (float_lat first) (\<lambda>lat.
             and_then (float_lon first) (\<lambda>lon.
               Inr (Some (lat, lon)))))))"

datatype geo_step = Respond nat string | Centre real real

definition station_map_geocode :: "exn + geo_response \<Rightarrow> exn + geo_step" where
  \<comment> \<open>Lines 323 to 326; the call is outside the \<open>try\<close> block, so an exception of
      \<open>geocode_station\<close> leaves the handler.\<close>
  "station_map_geocode got =
     and_then (geocode_station got) (\<lambda>geo.
       case geo of
         None \<Rightarrow> Inr (Respond 502 ''Geocoding failed'')
       | Some (lat, lon) \<Rightarrow> Inr (Centre lat lon))"

section \<open>Overpass results\<close>

text \<open>
  A JSON object is an association list with distinct keys. Tag values are strings,
  coordinates are numbers.
\<close>

record element =
  el_id :: "int option"
  el_type :: "string option"
  el_lat :: "real option"
  el_lon :: "real option"
  el_center :: "(string \<times> real) list option"
  el_tags :: "(string \<times> string) list option"

record poi =
  poi_id :: "int option"
  poi_osm_type :: "string option"
  poi_name :: string
  poi_type :: string
  poi_lat :: real
  poi_lon :: real
  poi_tags :: "(string \<times> string) list"
  poi_emergency :: bool

definition get_or :: "('k \<times> 'v) list \<Rightarrow> 'k \<Rightarrow> 'v \<Rightarrow> 'v" where
  \<comment> \<open>\<open>d.get(k, default)\<close>.\<close>
  "get_or d k dflt = (case map_of d k of None \<Rightarrow> dflt | Some v \<Rightarrow> v)"

fun join :: "string \<Rightarrow> string list \<Rightarrow> string" where
  "join sep [] = []"
| "join sep [x] = x"
| "join sep (x # y # ys) = x @ sep @ join sep (y # ys)"

definition type_keys :: "string list" where
  "type_keys = [''railway'', ''public_transport'', ''amenity'', ''office'', ''building'',
                ''highway'', ''entrance'']"

definition type_parts :: "(string \<times> string) list \<Rightarrow> string list" where
  "type_parts tags =
     concat (map (\<lambda>k. case map_of tags k of None \<Rightarrow> [] | Some v \<Rightarrow> [k @ ''='' @ v]) type_keys)"

definition emergency_of :: "(string \<times> string) list \<Rightarrow> bool" where
  \<comment> \<open>Lines 287 to 291.\<close>
  "emergency_of tags =
     (let emergency = False;
          emergency = (if sublist ''police'' (get_or tags ''amenity'' [])
                          \<or> sublist ''hospital'' (get_or tags ''amenity'' [])
                       then True else emergency);
          emergency = (if truthy (map_of tags ''emergency'')
                          \<or> truthy (map_of tags ''emergency_phone'')
                          \<or> truthy (map_of tags ''contact:phone'')
                       then True else emergency)
      in emergency)"

definition element_poi :: "element \<Rightarrow> poi option" where
  \<comment> \<open>The body of the loop for one element; \<open>None\<close> is \<open>continue\<close>.\<close>
  "element_poi el =
     (let position =
            (if el_type el = Some ''node'' then
               Some (case el_lat el of None \<Rightarrow> 0 | Some x \<Rightarrow> x,
                     case el_lon el of None \<Rightarrow> 0 | Some x \<Rightarrow> x)
             else
               (case el_center el of
                  None \<Rightarrow> None
                | Some center \<Rightarrow>
                    if center = [] then None
                    else Some (get_or center ''lat'' 0, get_or center ''lon'' 0)))
      in case position of
           None \<Rightarrow> None
         | Some (lat, lon) \<Rightarrow>
             (let tags = (case el_tags el of None \<Rightarrow> [] | Some t \<Rightarrow> t);
                  name = or_else (map_of tags ''name'')
                           (or_else (map_of tags ''ref'') (or_else (map_of tags ''operator'') []));
                  parts = type_parts tags;
                  type_str = (if parts \<noteq> [] then join '', '' parts else ''other'')
              in Some \<lparr>poi_id = el_id el, poi_osm_type = el_type el, poi_name = name,
                        poi_type = type_str, poi_lat = lat, poi_lon = lon, poi_tags = tags,
                        poi_emergency = emergency_of tags\<rparr>))"

fun parse_overpass_result :: "element list \<Rightarrow> poi list" where
  "parse_overpass_result [] = []"
| "parse_overpass_result (el # els) =
     (case element_poi el of
        None \<Rightarrow> parse_overpass_result els
      | Some p \<Rightarrow> p # parse_overpass_result els)"

section \<open>Sample inputs\<close>

text \<open>Concrete rows, blocks, markers, responses and elements, for the evaluated instances.\<close>

definition row5 :: tr where
  "row5 = \<lparr>find_all_td = [\<lparr>td_text = '' 12 ''\<rparr>, \<lparr>td_text = ''HWH''\<rparr>,
      \<lparr>td_text = ''Howrah Jn''\<rparr>, \<lparr>td_text = ''ER''\<rparr>, \<lparr>td_text = ''Howrah Junction''\<rparr>]\<rparr>"

definition row3 :: tr where
  "row3 = \<lparr>find_all_td = [\<lparr>td_text = []\<rparr>, \<lparr>td_text = ''x''\<rparr>, \<lparr>td_text = ''Kolkata, WB''\<rparr>]\<rparr>"

definition row2 :: tr where
  "row2 = \<lparr>find_all_td = [\<lparr>td_text = []\<rparr>, \<lparr>td_text = ''x''\<rparr>]\<rparr>"

definition blk :: block where
  "blk = \<lparr>find_all_a_href = [\<lparr>href = ''/blog/1'', title = None\<rparr>,
        \<lparr>href = ''https://x.com/train/timetable/rajdhani-exp/1234/55/0'',
           title = Some ''Rajdhani Exp | 12301 ''\<rparr>],
      next_siblings = [\<lparr>is_reg_trnsumm_div = True, t_attr = Some ''999''\<rparr>],
      child_divs = map (\<lambda>s. \<lparr>get_text = s, find_a_href = None\<rparr>)
        [''12301'', ''Raj'', ''SF'', ''ER'', ''HWH'', ''9'', ''16:50'', ''NDLS'', ''x8'', ''10:05''],
      border_cells = map (\<lambda>s. \<lparr>get_text = s, find_a_href = None\<rparr>)
        [''12302'', ''Raj2'', ''SF'', ''NR'', ''4'', ''x5'', ''NDLS'', ''17:00'', ''HWH'',
         ''09:55'']\<rparr>"


definition blk0 :: block where
  "blk0 = \<lparr>find_all_a_href = [], next_siblings = [], child_divs = [], border_cells = []\<rparr>"

definition blk_abc :: block where
  "blk_abc = \<lparr>find_all_a_href = [],
      next_siblings = [\<lparr>is_reg_trnsumm_div = False, t_attr = None\<rparr>,
        \<lparr>is_reg_trnsumm_div = True, t_attr = Some ''abc''\<rparr>],
      child_divs = map (\<lambda>s. \<lparr>get_text = s, find_a_href = None\<rparr>)
        [''12301'', ''Raj (Spl)'', ''SF''],
      border_cells = []\<rparr>"

definition dep_abc :: departure where
  "dep_abc = \<lparr>d_train_no = Some ''12301'', d_name = Some ''Raj (Spl)'',
     d_type = Some ''SF'', d_zone = None, d_platform = None, d_from = None,
     d_departure_time = None, d_to = None, d_arrival_time = None,
     d_train_url = Some ''/train/timetable/raj-spl-12301/abc/55/66''\<rparr>"

definition blank5 :: tr where
  "blank5 = \<lparr>find_all_td = [\<lparr>td_text = '' ''\<rparr>, \<lparr>td_text = []\<rparr>, \<lparr>td_text = []\<rparr>,
      \<lparr>td_text = []\<rparr>, \<lparr>td_text = []\<rparr>]\<rparr>"

definition blank3 :: tr where
  "blank3 = \<lparr>find_all_td = [\<lparr>td_text = []\<rparr>, \<lparr>td_text = []\<rparr>, \<lparr>td_text = []\<rparr>]\<rparr>"

definition dep66 :: departure where
  "dep66 = \<lparr>d_train_no = Some ''12301'', d_name = Some ''Rajdhani Exp'',
     d_type = Some ''SF'', d_zone = Some ''ER'', d_platform = Some ''9'',
     d_from = Some ''HWH'', d_departure_time = Some ''10:05'',
     d_to = Some ''NDLS'', d_arrival_time = Some ''16:50'',
     d_train_url = Some ''/train/timetable/rajdhani-exp/1234/55/66''\<rparr>"

definition dep0 :: departure where
  "dep0 = \<lparr>d_train_no = Some ''12302'', d_name = Some ''Raj2'',
     d_type = Some ''SF'', d_zone = Some ''NR'', d_platform = Some ''4'',
     d_from = Some ''NDLS'', d_departure_time = Some ''09:55'',
     d_to = Some ''HWH'', d_arrival_time = Some ''17:00'',
     d_train_url = Some ''/train/timetable/rajdhani-exp/1234/55/0''\<rparr>"


definition cells17 :: "cell list" where
  "cells17 = map (\<lambda>s. \<lparr>get_text = s, find_a_href = None\<rparr>)
     [''1'', ''x'', ''HWH'', ''Howrah Jn'', ''a'', ''b'', ''16:40'', ''c'', ''16:50'', ''d'', ''e'',
      ''9'', ''f'', ''g'', ''h'', ''i'', ''j'']"

definition stop17 :: stop_marker where
  "stop17 = \<lparr>parent_child_divs = cells17\<rparr>"

definition stop16 :: stop_marker where
  "stop16 = \<lparr>parent_child_divs = take 16 cells17\<rparr>"

definition resp_empty :: geo_response where
  "resp_empty = \<lparr>status_code = 200, json = Inr []\<rparr>"

definition resp_503 :: geo_response where
  "resp_503 = \<lparr>status_code = 503, json = Inl ValueError\<rparr>"

definition resp_found :: geo_response where
  "resp_found = \<lparr>status_code = 200, json = Inr [\<lparr>float_lat = Inr 22.58, float_lon = Inr 88.34\<rparr>]\<rparr>"

definition el_node :: "(string \<times> string) list \<Rightarrow> element" where
  "el_node tags = \<lparr>el_id = Some 1, el_type = Some ''node'', el_lat = Some 12.9,
      el_lon = Some 77.6,
      el_center = None, el_tags = Some tags\<rparr>"

section \<open>Properties of \<open>slugify\<close>\<close>

lemma slug_char_lower: "slug_char c \<Longrightarrow> lower_char c = c"
  by (auto simp: slug_char_def lower_alnum_def lower_char_def Let_def)

lemma slug_char_not_special: "slug_char c \<Longrightarrow> c \<notin> set ''()/ &''"
  by (auto simp: slug_char_def lower_alnum_def Let_def)

lemma replace_absent: "old \<notin> set s \<Longrightarrow> replace old new s = s"
  by (induction s) (auto simp: replace_def)

lemma sub_hyphen_runs_fixed: "no_hyphen_pair s \<Longrightarrow> sub_hyphen_runs s = s"
  by (induction s rule: sub_hyphen_runs.induct) auto

lemma sub_hyphen_runs_head: "\<exists>r. sub_hyphen_runs (b # cs) = b # r"
  by (induction cs arbitrary: b) auto

lemma no_pair_sub_hyphen_runs: "no_hyphen_pair (sub_hyphen_runs s)"
proof (induction s rule: sub_hyphen_runs.induct)
  case (1 a b cs)
  obtain r where r: "sub_hyphen_runs (b # cs) = b # r"
    using sub_hyphen_runs_head by blast
  with 1 show ?case by auto
qed auto

lemma set_sub_hyphen_runs: "set (sub_hyphen_runs s) \<subseteq> set s"
  by (induction s rule: sub_hyphen_runs.induct) auto

lemma no_pair_dropWhile: "no_hyphen_pair s \<Longrightarrow> no_hyphen_pair (dropWhile P s)"
  by (induction s rule: no_hyphen_pair.induct) auto

lemma no_pair_prefix: "no_hyphen_pair (xs @ ys) \<Longrightarrow> no_hyphen_pair xs"
  by (induction xs rule: no_hyphen_pair.induct) auto

lemma rstrip_prefix: "\<exists>r. s = rev (dropWhile P (rev s)) @ r"
proof -
  have "rev s = takeWhile P (rev s) @ dropWhile P (rev s)" by simp
  then have "rev (rev s) = rev (dropWhile P (rev s)) @ rev (takeWhile P (rev s))"
    by (metis rev_append)
  then show ?thesis by auto
qed

lemma rstrip_last:
  assumes "rev (dropWhile P (rev s)) \<noteq> []"
  shows "\<not> P (last (rev (dropWhile P (rev s))))"
proof -
  from assms have ne: "dropWhile P (rev s) \<noteq> []" by simp
  then have "\<not> P (hd (dropWhile P (rev s)))" by (rule hd_dropWhile)
  with ne show ?thesis by (simp add: last_rev)
qed

lemma strip_chars_fixed:
  assumes "s = [] \<or> (hd s \<notin> set chars \<and> last s \<notin> set chars)"
  shows "strip_chars chars s = s"
proof (cases "s = []")
  case True
  then show ?thesis by (simp add: strip_chars_def)
next
  case False
  with assms have h: "hd s \<notin> set chars" and l: "last s \<notin> set chars" by auto
  from h have 1: "dropWhile (\<lambda>c. c \<in> set chars) s = s"
    by (simp add: dropWhile_eq_self_iff)
  from False l have "hd (rev s) \<notin> set chars" by (simp add: hd_rev)
  then have 2: "dropWhile (\<lambda>c. c \<in> set chars) (rev s) = rev s"
    by (simp add: dropWhile_eq_self_iff)
  show ?thesis by (simp add: strip_chars_def 1 2)
qed

lemma slug_shape_prefix:
  assumes l: "l = r @ t" and all: "list_all slug_char l" and np: "no_hyphen_pair l"
    and head_ok: "l = [] \<or> hd l \<noteq> CHR ''-''" and tail_ok: "r = [] \<or> last r \<noteq> CHR ''-''"
  shows "slug_shape r"
proof -
  have a: "list_all slug_char r" using all unfolding l by simp
  have b: "no_hyphen_pair r" using np unfolding l by (rule no_pair_prefix)
  have c: "r = [] \<or> (hd r \<noteq> CHR ''-'' \<and> last r \<noteq> CHR ''-'')"
  proof (cases r)
    case Nil
    then show ?thesis by simp
  next
    case (Cons x xs)
    with head_ok l have "hd r \<noteq> CHR ''-''" by simp
    with tail_ok Cons show ?thesis by simp
  qed
  from a b c show ?thesis unfolding slug_shape_def by simp
qed

lemma strip_chars_shape:
  assumes "list_all slug_char s" and "no_hyphen_pair s"
  shows "slug_shape (strip_chars ''-'' s)"
proof -
  define P where "P = (\<lambda>c. c \<in> set ''-'')"
  define l where "l = dropWhile P s"
  define r where "r = rev (dropWhile P (rev l))"
  obtain t where t: "l = r @ t" unfolding r_def using rstrip_prefix by blast
  have "set l \<subseteq> set s" unfolding l_def by (auto dest: set_dropWhileD)
  then have all: "list_all slug_char l" using assms(1) by (auto simp: list_all_iff)
  have np: "no_hyphen_pair l" unfolding l_def using assms(2) by (rule no_pair_dropWhile)
  have "l = [] \<or> \<not> P (hd l)" unfolding l_def using hd_dropWhile [of P s] by blast
  then have head_ok: "l = [] \<or> hd l \<noteq> CHR ''-''" by (simp add: P_def)
  have "r = [] \<or> \<not> P (last r)" unfolding r_def using rstrip_last [of P l] by blast
  then have tail_ok: "r = [] \<or> last r \<noteq> CHR ''-''" by (simp add: P_def)
  have "slug_shape r" using t all np head_ok tail_ok by (rule slug_shape_prefix)
  then show ?thesis by (simp add: strip_chars_def r_def l_def P_def)
qed

lemma slug_shape_slugify: "slug_shape (slugify x)"
proof -
  let ?s = "sub_non_slug_chars (replace CHR ''&'' ''and'' (replace CHR '' '' ''-''
     (replace CHR ''/'' ''-'' (replace CHR '')'' [] (replace CHR ''('' [] (lower x))))))"
  have "list_all slug_char ?s" by (simp add: sub_non_slug_chars_def list_all_iff)
  then have "list_all slug_char (sub_hyphen_runs ?s)"
    using set_sub_hyphen_runs [of ?s] by (auto simp: list_all_iff)
  then have "slug_shape (strip_chars ''-'' (sub_hyphen_runs ?s))"
    using no_pair_sub_hyphen_runs by (rule strip_chars_shape)
  then show ?thesis by (simp add: slugify_def Let_def)
qed

lemma slug_shape_fixed:
  assumes "slug_shape s"
  shows "slugify s = s"
proof -
  from assms have all: "list_all slug_char s" and np: "no_hyphen_pair s"
    and ends: "s = [] \<or> (hd s \<notin> set ''-'' \<and> last s \<notin> set ''-'')"
    by (auto simp: slug_shape_def)
  have 1: "lower s = s"
    unfolding lower_def using all by (intro map_idI) (simp add: list_all_iff slug_char_lower)
  have ns: "\<And>c. c \<in> set ''()/ &'' \<Longrightarrow> c \<notin> set s"
    using all slug_char_not_special by (auto simp: list_all_iff)
  have 2: "replace CHR ''('' [] s = s" "replace CHR '')'' [] s = s"
    "replace CHR ''/'' ''-'' s = s" "replace CHR '' '' ''-'' s = s"
    "replace CHR ''&'' ''and'' s = s"
    by (simp_all add: replace_absent ns)
  have 3: "sub_non_slug_chars s = s"
    unfolding sub_non_slug_chars_def using all by (simp add: list_all_iff)
  show ?thesis
    by (simp add: slugify_def Let_def 1 2 3 sub_hyphen_runs_fixed [OF np]
        strip_chars_fixed [OF ends])
qed

lemma slug_re_from_shape:
  "list_all slug_char s \<Longrightarrow> no_hyphen_pair s \<Longrightarrow> s \<noteq> [] \<Longrightarrow> last s \<noteq> CHR ''-''
     \<Longrightarrow> in_run \<or> hd s \<noteq> CHR ''-'' \<Longrightarrow> slug_re_from in_run s"
proof (induction s arbitrary: in_run)
  case Nil
  then show ?case by simp
next
  case (Cons c cs)
  show ?case
  proof (cases "cs = []")
    case True
    with Cons.prems show ?thesis by (auto simp: slug_char_def)
  next
    case False
    then obtain d ds where cs: "cs = d # ds" by (cases cs) auto
    show ?thesis
    proof (cases "c = CHR ''-''")
      case True
      with Cons.prems cs have "slug_re_from False cs"
        by (intro Cons.IH) auto
      with True Cons.prems show ?thesis by auto
    next
      case False
      with Cons.prems cs have "slug_re_from True cs"
        by (intro Cons.IH) auto
      with False Cons.prems show ?thesis by (auto simp: slug_char_def)
    qed
  qed
qed

text \<open>
  C8. \<open>slugify\<close> is a total function (every HOL function is, and none of its steps can
  raise), it is idempotent, and its result is the empty string or matches
  \<open>^[a-z0-9]+(-[a-z0-9]+)*$\<close>.
\<close>

theorem slugify_idempotent_and_shaped:
  "slugify (slugify x) = slugify x \<and> (slugify x = [] \<or> matches_slug_re (slugify x))"
proof -
  have sh: "slug_shape (slugify x)" by (rule slug_shape_slugify)
  then have "slugify (slugify x) = slugify x" by (rule slug_shape_fixed)
  moreover have "slugify x = [] \<or> matches_slug_re (slugify x)"
    using sh unfolding matches_slug_re_def slug_shape_def
    by (auto intro: slug_re_from_shape)
  ultimately show ?thesis by simp
qed

theorem slugify_idempotent_and_shaped_witness:
  "slugify ''Howrah (HWH) A/C & Mail--12301-'' = ''howrah-hwh-a-c-and-mail-12301''
   \<and> slugify (slugify ''Howrah (HWH) A/C & Mail--12301-'')
       = slugify ''Howrah (HWH) A/C & Mail--12301-''
   \<and> matches_slug_re (slugify ''Howrah (HWH) A/C & Mail--12301-'')"
proof -
  have v: "slugify ''Howrah (HWH) A/C & Mail--12301-'' = ''howrah-hwh-a-c-and-mail-12301''"
    by code_simp
  have ne: "slugify ''Howrah (HWH) A/C & Mail--12301-'' \<noteq> []"
    unfolding v by simp
  from slugify_idempotent_and_shaped [of "''Howrah (HWH) A/C & Mail--12301-''"] v ne
  show ?thesis by simp
qed

section \<open>Properties of the result cache\<close>

text \<open>
  C7. A \<open>cache_set\<close> followed by a \<open>cache_get\<close> of the same key before the TTL has passed
  (in particular at once) returns the value and leaves the cache as it is; a \<open>cache_get\<close>
  of an entry whose timestamp is more than \<open>CACHE_TTL_SECONDS\<close> (six hours) before the
  time of the read is a miss and deletes the entry.
\<close>

theorem cache_set_get_and_expiry:
  "cache_get t k (cache_set t k v c) = (Some v, cache_set t k v c)
   \<and> (now - t \<le> CACHE_TTL_SECONDS \<longrightarrow>
      cache_get now k (cache_set t k v c) = (Some v, cache_set t k v c))
   \<and> (c k = Some (ts, v) \<and> now - ts > CACHE_TTL_SECONDS \<longrightarrow>
      cache_get now k c = (None, c(k := None)) \<and> k \<notin> dom (snd (cache_get now k c)))
   \<and> CACHE_TTL_SECONDS = 6 * 3600"
  by (auto simp: cache_get_def cache_set_def CACHE_TTL_SECONDS_def)

theorem cache_set_get_and_expiry_witness:
  "cache_get 100 ''station:howrah:700'' (cache_set 100 ''station:howrah:700'' (7::nat) Map.empty)
     = (Some 7, cache_set 100 ''station:howrah:700'' 7 Map.empty)
   \<and> cache_get 21700 ''a'' (cache_set 100 ''a'' (7::nat) Map.empty)
     = (Some 7, cache_set 100 ''a'' 7 Map.empty)
   \<and> cache_get 21701 ''a'' (cache_set 100 ''a'' (7::nat) Map.empty)
     = (None, (cache_set 100 ''a'' (7::nat) Map.empty)(''a'' := None))"
  using cache_set_get_and_expiry [of 100 "''station:howrah:700''" "7::nat" Map.empty]
    cache_set_get_and_expiry [of 100 "''a''" "7::nat" Map.empty 21700]
    cache_set_get_and_expiry [of 100 "''a''" "7::nat" "cache_set 100 ''a'' (7::nat) Map.empty"
      21701 100]
  by (simp add: CACHE_TTL_SECONDS_def cache_set_def)

section \<open>Properties of station search\<close>

lemma station_pair_well_formed: "well_formed m s \<Longrightarrow> station_pair m s = Inr (Some (match_of m s))"
  by (auto simp add: station_pair_def well_formed_def item_def and_then_def match_of_def Let_def)

lemma station_pair_truncated: "\<not> well_formed m s \<Longrightarrow> station_pair m s = Inr None"
  by (auto simp add: station_pair_def well_formed_def Let_def)

lemma drop_three:
  assumes "int i < max 0 (int (length rows) - 2)"
  shows "\<exists>rest. drop i rows = rows ! i # rows ! (i + 1) # rows ! (i + 2) # rest"
proof -
  from assms have l: "i + 2 < length rows" by auto
  then have "drop i rows = rows ! i # drop (Suc i) rows" by (simp add: Cons_nth_drop_Suc)
  also from l have "drop (Suc i) rows = rows ! (i + 1) # drop (Suc (Suc i)) rows"
    by (simp add: Cons_nth_drop_Suc)
  also from l have "drop (Suc (Suc i)) rows = rows ! (i + 2) # drop (Suc (Suc (Suc i))) rows"
    by (simp add: Cons_nth_drop_Suc)
  finally show ?thesis by blast
qed

lemma scanned_short: "\<not> int i < max 0 (int (length rows) - 2) \<Longrightarrow> scanned_pairs (drop i rows) = []"
proof -
  assume "\<not> int i < max 0 (int (length rows) - 2)"
  then have "length (drop i rows) \<le> 2" by auto
  then show ?thesis by (cases "drop i rows" rule: scanned_pairs.cases) auto
qed

lemma station_loop_eq:
  "station_loop rows i acc = Inr (acc @ matches_of (scanned_pairs (drop i rows)))"
proof (induction rows i acc rule: station_loop.induct)
  case (1 rows i results)
  show ?case
  proof (cases "int i < max 0 (int (length rows) - 2)")
    case False
    then show ?thesis
      by (subst station_loop.simps) (simp add: scanned_short matches_of_def del: station_loop.simps)
  next
    case True
    then obtain rest where d: "drop i rows = rows ! i # rows ! (i + 1) # rows ! (i + 2) # rest"
      using drop_three by blast
    from True have l: "i + 2 < length rows" by auto
    have d2: "drop (i + 2) rows = rows ! (i + 2) # rest"
      using d by (metis drop_drop add.commute drop_Suc_Cons drop0 numeral_2_eq_2)
    have sp: "scanned_pairs (drop i rows)
        = (rows ! i, rows ! (i + 1)) # scanned_pairs (drop (i + 2) rows)"
      unfolding d d2 by simp
    have it: "item rows i = Inr (rows ! i)" "item rows (i + 1) = Inr (rows ! (i + 1))"
      using l by (simp_all add: item_def)
    show ?thesis
    proof (cases "well_formed (rows ! i) (rows ! (i + 1))")
      case wf: True
      have "station_loop rows i results
          = station_loop rows (i + 2) (results @ [match_of (rows ! i) (rows ! (i + 1))])"
        using l it station_pair_well_formed [OF wf]
        by (subst station_loop.simps) (simp add: and_then_def del: station_loop.simps)
      also have "\<dots> = Inr ((results @ [match_of (rows ! i) (rows ! (i + 1))])
          @ matches_of (scanned_pairs (drop (i + 2) rows)))"
        using "1.IH" [OF True, of "Some (match_of (rows ! i) (rows ! (i + 1)))"] by simp
      finally show ?thesis using wf by (simp add: sp matches_of_def)
    next
      case nwf: False
      have "station_loop rows i results = station_loop rows (i + 2) results"
        using l it station_pair_truncated [OF nwf]
        by (subst station_loop.simps) (simp add: and_then_def del: station_loop.simps)
      also have "\<dots> = Inr (results @ matches_of (scanned_pairs (drop (i + 2) rows)))"
        using "1.IH" [OF True, of None] by simp
      finally show ?thesis using nwf by (simp add: sp matches_of_def)
    qed
  qed
qed

lemma scanned_pairs_index:
  "scanned_pairs rows
     = map (\<lambda>k. (rows ! (2 * k), rows ! (2 * k + 1))) [0..<(length rows - 1) div 2]"
proof (induction rows rule: scanned_pairs.induct)
  case (1 m s r rest)
  have "[0..<(length (m # s # r # rest) - 1) div 2]
      = 0 # map Suc [0..<(length (r # rest) - 1) div 2]"
    by (simp add: upt_conv_Cons map_Suc_upt del: upt_Suc)
  then show ?case using 1 by (simp add: comp_def del: upt_Suc)
qed simp_all

lemma sample_rows_well_formed:
  "well_formed row5 row3" "\<not> well_formed row5 row2" "well_formed blank5 blank3"
  by (simp_all add: well_formed_def row5_def row3_def row2_def blank5_def blank3_def)

text \<open>
  C1, as stated, fails on the code. The loop runs over the even \<open>i\<close> below
  \<open>len(rows) - 2\<close>, so a pair is read only when at least one more row follows it: a
  table that holds exactly one well-formed pair yields no match, and two valid pairs
  with a truncated pair between them yield one match. A well-formed pair whose cells are
  blank yields a match whose six fields are all empty.
\<close>

theorem station_search_single_pair_counterexample:
  "well_formed row5 row3 \<and> station_search [row5, row3] = Inr []
   \<and> \<not> well_formed row5 row2
   \<and> station_search [row5, row3, row5, row2, row5, row3] = Inr [match_of row5 row3]
   \<and> well_formed blank5 blank3
   \<and> station_search [blank5, blank3, row2]
       = Inr [\<lparr>sm_id = [], sm_code = [], sm_name = [], sm_division = [], sm_full = [],
                sm_location = []\<rparr>]"
proof -
  have "station_search [row5, row3] = Inr []"
    by (simp add: station_search_def station_loop_eq matches_of_def)
  moreover have "station_search [row5, row3, row5, row2, row5, row3] = Inr [match_of row5 row3]"
    by (simp add: station_search_def station_loop_eq matches_of_def sample_rows_well_formed)
  moreover have "match_of blank5 blank3
      = \<lparr>sm_id = [], sm_code = [], sm_name = [], sm_division = [], sm_full = [],
          sm_location = []\<rparr>"
    by (simp add: match_of_def blank5_def blank3_def strip_def isspace_def)
  then have "station_search [blank5, blank3, row2]
       = Inr [\<lparr>sm_id = [], sm_code = [], sm_name = [], sm_division = [], sm_full = [],
                sm_location = []\<rparr>]"
    by (simp add: station_search_def station_loop_eq matches_of_def sample_rows_well_formed)
  ultimately show ?thesis by (simp add: sample_rows_well_formed)
qed

text \<open>
  C1, amended. The extraction reads the pairs of rows \<open>2k\<close> and \<open>2k + 1\<close> with
  \<open>2k < len(rows) - 2\<close>, that is every pair that is followed by at least one more row,
  and it never raises. Each pair read with at least 5 primary cells and at least 3
  secondary cells yields exactly one match, whose six fields are the stripped texts of
  primary cells 0 to 4 and of secondary cell 2 (empty where the text is blank); any
  other pair read yields nothing, and the scan goes on. So a well-formed pair followed by
  one or two more rows yields exactly one match, two valid pairs followed by a third pair
  (truncated or not) yield exactly two, and a table of one pair alone yields none.
\<close>

theorem station_search_reads_pairs_followed_by_a_row:
  "station_search rows
     = Inr (map (\<lambda>(m, s).
               \<lparr>sm_id = strip (td_text (find_all_td m ! 0)),
                sm_code = strip (td_text (find_all_td m ! 1)),
                sm_name = strip (td_text (find_all_td m ! 2)),
                sm_division = strip (td_text (find_all_td m ! 3)),
                sm_full = strip (td_text (find_all_td m ! 4)),
                sm_location = strip (td_text (find_all_td s ! 2))\<rparr>)
            (filter (\<lambda>(m, s). 5 \<le> length (find_all_td m) \<and> 3 \<le> length (find_all_td s))
               (map (\<lambda>k. (rows ! (2 * k), rows ! (2 * k + 1)))
                  [0..<(length rows - 1) div 2])))
   \<and> (5 \<le> length (find_all_td m) \<and> 3 \<le> length (find_all_td s) \<longrightarrow>
        station_search (m # s # x # []) = Inr [match_of m s]
        \<and> station_search (m # s # x # y # []) = Inr [match_of m s])
   \<and> (5 \<le> length (find_all_td m1) \<and> 3 \<le> length (find_all_td s1)
       \<and> 5 \<le> length (find_all_td m2) \<and> 3 \<le> length (find_all_td s2) \<longrightarrow>
        station_search [m1, s1, m2, s2, m3, s3] = Inr [match_of m1 s1, match_of m2 s2])
   \<and> station_search [m, s] = Inr []
   \<and> match_of m s =
        \<lparr>sm_id = strip (td_text (find_all_td m ! 0)),
         sm_code = strip (td_text (find_all_td m ! 1)),
         sm_name = strip (td_text (find_all_td m ! 2)),
         sm_division = strip (td_text (find_all_td m ! 3)),
         sm_full = strip (td_text (find_all_td m ! 4)),
         sm_location = strip (td_text (find_all_td s ! 2))\<rparr>"
proof -
  have g: "station_search rows = Inr (matches_of (scanned_pairs rows))" for rows
    by (simp add: station_search_def station_loop_eq)
  have a: "station_search rows
     = Inr (map (\<lambda>(m, s).
               \<lparr>sm_id = strip (td_text (find_all_td m ! 0)),
                sm_code = strip (td_text (find_all_td m ! 1)),
                sm_name = strip (td_text (find_all_td m ! 2)),
                sm_division = strip (td_text (find_all_td m ! 3)),
                sm_full = strip (td_text (find_all_td m ! 4)),
                sm_location = strip (td_text (find_all_td s ! 2))\<rparr>)
            (filter (\<lambda>(m, s). 5 \<le> length (find_all_td m) \<and> 3 \<le> length (find_all_td s))
               (map (\<lambda>k. (rows ! (2 * k), rows ! (2 * k + 1)))
                  [0..<(length rows - 1) div 2])))"
    unfolding g scanned_pairs_index matches_of_def match_of_def well_formed_def ..
  have b: "station_search (m # s # x # []) = Inr [match_of m s]
        \<and> station_search (m # s # x # y # []) = Inr [match_of m s]"
    if "5 \<le> length (find_all_td m) \<and> 3 \<le> length (find_all_td s)"
    using that by (simp add: g matches_of_def well_formed_def)
  have c: "station_search [m1, s1, m2, s2, m3, s3] = Inr [match_of m1 s1, match_of m2 s2]"
    if "5 \<le> length (find_all_td m1) \<and> 3 \<le> length (find_all_td s1)
       \<and> 5 \<le> length (find_all_td m2) \<and> 3 \<le> length (find_all_td s2)"
    using that by (simp add: g matches_of_def well_formed_def)
  have d: "station_search [m, s] = Inr []"
    by (simp add: g matches_of_def)
  from a b c d show ?thesis by (simp add: match_of_def)
qed

theorem station_search_reads_pairs_followed_by_a_row_witness:
  "station_search [row5, row3, row2] = Inr [match_of row5 row3]
   \<and> station_search [row5, row3, row2, row2] = Inr [match_of row5 row3]
   \<and> station_search [row5, row3, row5, row3, row5, row2]
       = Inr [match_of row5 row3, match_of row5 row3]
   \<and> station_search [row5, row2] = Inr []
   \<and> match_of row5 row3 = \<lparr>sm_id = ''12'', sm_code = ''HWH'', sm_name = ''Howrah Jn'',
        sm_division = ''ER'', sm_full = ''Howrah Junction'', sm_location = ''Kolkata, WB''\<rparr>"
proof -
  have m: "match_of row5 row3 = \<lparr>sm_id = ''12'', sm_code = ''HWH'', sm_name = ''Howrah Jn'',
        sm_division = ''ER'', sm_full = ''Howrah Junction'', sm_location = ''Kolkata, WB''\<rparr>"
    by (simp add: match_of_def row5_def row3_def strip_def isspace_def)
  have l: "5 \<le> length (find_all_td row5)" "3 \<le> length (find_all_td row3)"
    by (simp_all add: row5_def row3_def)
  from station_search_reads_pairs_followed_by_a_row
         [of "[]" row5 row3 row2 row2 row5 row3 row5 row3 row5 row2] l
  have a: "station_search [row5, row3, row2] = Inr [match_of row5 row3]
   \<and> station_search [row5, row3, row2, row2] = Inr [match_of row5 row3]
   \<and> station_search [row5, row3, row5, row3, row5, row2]
       = Inr [match_of row5 row3, match_of row5 row3]"
    by simp
  from station_search_reads_pairs_followed_by_a_row
         [of "[]" row5 row2 row2 row2 row5 row3 row5 row3 row5 row2]
  have b: "station_search [row5, row2] = Inr []"
    by simp
  from a b m show ?thesis by simp
qed

section \<open>Properties of departures\<close>

lemma match_here_groups:
  "match_here s = Some (slug, ident) \<Longrightarrow> slug \<noteq> [] \<and> ident \<noteq> [] \<and> list_all isdigit ident"
  by (auto simp: match_here_def Let_def list_all_iff split: if_splits dest: set_takeWhileD)

lemma re_search_groups:
  "re_search_timetable s = Some (slug, ident) \<Longrightarrow> slug \<noteq> [] \<and> ident \<noteq> [] \<and> list_all isdigit ident"
  by (induction s) (auto split: option.splits dest: match_here_groups)

lemma find_name_anchor_eq:
  "find_name_anchor b = find (\<lambda>a. sublist timetable_marker (href a)) (find_all_a_href b)"
  by (simp add: find_name_anchor_def select_one_timetable_a_def split: option.splits)

lemma block_ids_eq:
  "block_ids b =
     (let m = (case find (\<lambda>a. sublist timetable_marker (href a)) (find_all_a_href b) of
                 None \<Rightarrow> None
               | Some a \<Rightarrow> re_search_timetable (href a))
      in case m of
           Some (slug, ident) \<Rightarrow> (Some slug, Some ident)
         | None \<Rightarrow> (None, case find is_reg_trnsumm_div (next_siblings b) of
                              None \<Rightarrow> None
                            | Some sb \<Rightarrow> t_attr sb))"
  by (auto simp: block_ids_def anchor_ids_def sibling_id_def find_name_anchor_eq
      find_next_sibling_trnsumm_def truthy_def Let_def
      split: option.splits prod.splits dest: re_search_groups)

lemma read_cells_eq:
  "read_cells dest b =
     (let cells = (if dest \<noteq> ''0'' then child_divs b else border_cells b);
          titled = (if dest \<noteq> ''0''
                    then find (\<lambda>a. sublist timetable_marker (href a)) (find_all_a_href b)
                    else if 1 < length cells then find_a_href (cells ! 1) else None);
          name = (case titled of
                    None \<Rightarrow> cell_text cells 1
                  | Some a \<Rightarrow> (case title a of
                                 None \<Rightarrow> cell_text cells 1
                               | Some ti \<Rightarrow> Some (title_name ti)))
      in \<lparr>v_train_no = cell_text cells 0, v_name = name,
          v_ttype = cell_text cells 2, v_zone = cell_text cells 3,
          v_platform = cell_text cells (if dest \<noteq> ''0'' then 5 else 4),
          v_from_stn = cell_text cells (if dest \<noteq> ''0'' then 4 else 6),
          v_dep_time = cell_text cells (if dest \<noteq> ''0'' then 6 else 7),
          v_to_stn = cell_text cells (if dest \<noteq> ''0'' then 7 else 8),
          v_arr_time = cell_text cells 9\<rparr>)"
  by (auto simp: read_cells_def read_direct_def read_routed_def find_name_anchor_eq Let_def
      split: option.splits)



lemma departures_emitted:
  "r \<in> set (departures sid dest blocks) \<longleftrightarrow> (\<exists>b \<in> set blocks. parse_block sid dest b = Some r)"
  by (induction blocks) (auto split: option.splits)

lemma departures_append:
  "departures sid dest (bs @ bs') = departures sid dest bs @ departures sid dest bs'"
  by (induction bs) (auto split: option.splits)

lemma parse_block_None:
  "parse_block sid dest b = None \<longleftrightarrow>
     \<not> truthy (v_train_no (read_cells dest b)) \<or> \<not> truthy (v_name (read_cells dest b))"
  by (auto simp: parse_block_def Let_def truthy_def split: option.splits prod.splits)

lemma parse_block_Some:
  assumes "parse_block sid dest b = Some r"
  shows "\<exists>train_no name. train_no \<noteq> [] \<and> name \<noteq> []
     \<and> v_train_no (read_cells dest b) = Some train_no \<and> v_name (read_cells dest b) = Some name
     \<and> r = \<lparr>d_train_no = Some train_no, d_name = Some name,
            d_type = v_ttype (read_cells dest b), d_zone = v_zone (read_cells dest b),
            d_platform = v_platform (read_cells dest b), d_from = v_from_stn (read_cells dest b),
            d_departure_time = v_arr_time (read_cells dest b), d_to = v_to_stn (read_cells dest b),
            d_arrival_time = v_dep_time (read_cells dest b),
            d_train_url =
              (case snd (block_ids b) of None \<Rightarrow> None
               | Some ident \<Rightarrow> if ident = [] then None
                   else Some (train_url_of
                          (or_else (fst (block_ids b)) (slugify (name @ ''-'' @ train_no)))
                          ident sid dest))\<rparr>"
  using assms
  by (auto simp: parse_block_def Let_def split: option.splits prod.splits if_splits)

lemma parse_block_dropped:
  "(let cells = (if dest \<noteq> ''0'' then child_divs b else border_cells b);
        titled = (if dest \<noteq> ''0''
                  then find (\<lambda>a. sublist timetable_marker (href a)) (find_all_a_href b)
                  else if 1 < length cells then find_a_href (cells ! 1) else None);
        name = (case titled of
                  None \<Rightarrow> cell_text cells 1
                | Some a \<Rightarrow> (case title a of
                               None \<Rightarrow> cell_text cells 1
                             | Some ti \<Rightarrow> Some (title_name ti)))
    in parse_block sid dest b = None \<longleftrightarrow> \<not> truthy (cell_text cells 0) \<or> \<not> truthy name)"
  unfolding parse_block_None by (simp add: read_cells_eq Let_def)



lemma sample_blk_direct: "parse_block ''55'' ''66'' blk = Some dep66"
  by code_simp

lemma sample_blk_routed: "parse_block ''55'' ''0'' blk = Some dep0"
  by code_simp


lemma sample_blk0: "parse_block ''55'' ''66'' blk0 = None"
  by code_simp

lemma sample_blk_abc: "parse_block ''55'' ''66'' blk_abc = Some dep_abc"
  by code_simp


lemma find_name_anchor_cells [simp]:
  "find_name_anchor (b\<lparr>border_cells := cs\<rparr>) = find_name_anchor b"
  "find_name_anchor (b\<lparr>child_divs := cs\<rparr>) = find_name_anchor b"
  by (simp_all add: find_name_anchor_def select_one_timetable_a_def split: option.splits)

lemma block_ids_cells [simp]:
  "block_ids (b\<lparr>border_cells := cs\<rparr>) = block_ids b"
  "block_ids (b\<lparr>child_divs := cs\<rparr>) = block_ids b"
  by (simp_all add: block_ids_def sibling_id_def find_next_sibling_trnsumm_def
      split: option.splits prod.splits)


lemma read_direct_border [simp]:
  "read_direct (b\<lparr>border_cells := cs\<rparr>) na = read_direct b na"
  by (simp add: read_direct_def)

lemma read_routed_child [simp]:
  "read_routed (b\<lparr>child_divs := cs\<rparr>) = read_routed b"
  by (simp add: read_routed_def)







lemma parse_block_times:
  "parse_block sid dest b = Some r \<Longrightarrow>
     d_departure_time r = v_arr_time (read_cells dest b)
     \<and> d_arrival_time r = v_dep_time (read_cells dest b)"
  by (auto simp: parse_block_def Let_def split: option.splits prod.splits if_splits)

lemma read_cells_times:
  "v_arr_time (read_cells dest b)
     = cell_text (if dest \<noteq> ''0'' then child_divs b else border_cells b) 9"
  "v_dep_time (read_cells dest b)
     = (if dest \<noteq> ''0'' then cell_text (child_divs b) 6 else cell_text (border_cells b) 7)"
  by (simp_all add: read_cells_def read_direct_def read_routed_def Let_def)

text \<open>
  C3. Every record emitted comes from a block, and in it the field \<open>departure_time\<close>
  holds what the code read as \<open>arr_time\<close>, the text of the cell at position 9, and the
  field \<open>arrival_time\<close> holds what it read as \<open>dep_time\<close>, the text of the cell at position
  6 of the direct child cells with a destination and at position 7 of the class-marked
  cells without one (\<open>None\<close> when the block has no such cell).
\<close>

theorem departure_time_labels_swapped:
  assumes "r \<in> set (departures sid dest blocks)"
  shows "\<exists>b \<in> set blocks. parse_block sid dest b = Some r
     \<and> d_departure_time r = v_arr_time (read_cells dest b)
     \<and> d_arrival_time r = v_dep_time (read_cells dest b)
     \<and> (dest \<noteq> ''0'' \<longrightarrow> d_departure_time r = cell_text (child_divs b) 9
                        \<and> d_arrival_time r = cell_text (child_divs b) 6)
     \<and> (dest = ''0'' \<longrightarrow> d_departure_time r = cell_text (border_cells b) 9
                        \<and> d_arrival_time r = cell_text (border_cells b) 7)"
proof -
  from assms obtain b where b: "b \<in> set blocks" "parse_block sid dest b = Some r"
    by (auto simp: departures_emitted)
  from b(2) have "d_departure_time r = v_arr_time (read_cells dest b)"
    "d_arrival_time r = v_dep_time (read_cells dest b)"
    by (simp_all add: parse_block_times)
  with b show ?thesis by (auto simp: read_cells_times)
qed

theorem departure_time_labels_swapped_witness:
  "dep66 \<in> set (departures ''55'' ''66'' [blk])
   \<and> d_departure_time dep66 = cell_text (child_divs blk) 9
   \<and> d_arrival_time dep66 = cell_text (child_divs blk) 6
   \<and> dep0 \<in> set (departures ''55'' ''0'' [blk])
   \<and> d_departure_time dep0 = cell_text (border_cells blk) 9
   \<and> d_arrival_time dep0 = cell_text (border_cells blk) 7"
proof -
  have a: "dep66 \<in> set (departures ''55'' ''66'' [blk])"
    by (simp add: sample_blk_direct)
  have b: "dep0 \<in> set (departures ''55'' ''0'' [blk])"
    by (simp add: sample_blk_routed)
  from departure_time_labels_swapped [OF a]
  have c: "d_departure_time dep66 = cell_text (child_divs blk) 9
      \<and> d_arrival_time dep66 = cell_text (child_divs blk) 6"
    by auto
  from departure_time_labels_swapped [OF b]
  have d: "d_departure_time dep0 = cell_text (border_cells blk) 9
      \<and> d_arrival_time dep0 = cell_text (border_cells blk) 7"
    by auto
  from a b c d show ?thesis by blast
qed

text \<open>
  C4, as stated, fails on the code in two points: the identifier taken from a sibling
  is its attribute \<open>t\<close> whatever its text, numeric or not, and the sibling is the first
  following one that is a \<open>div\<close> of class \<open>reg trnsumm\<close>, adjacent or not. Here the adjacent
  sibling has no attribute, the next one has \<open>t="abc"\<close>, and the record has a link.
\<close>

theorem departures_link_from_non_numeric_sibling_counterexample:
  "departures ''55'' ''66'' [blk_abc] = [dep_abc]
   \<and> d_train_url dep_abc = Some ''/train/timetable/raj-spl-12301/abc/55/66''
   \<and> \<not> list_all isdigit ''abc''
   \<and> find_all_a_href blk_abc = []
   \<and> next_siblings blk_abc
       = [\<lparr>is_reg_trnsumm_div = False, t_attr = None\<rparr>,
          \<lparr>is_reg_trnsumm_div = True, t_attr = Some ''abc''\<rparr>]"
proof -
  have "\<not> list_all isdigit ''abc''"
    by (simp add: isdigit_def)
  moreover have "d_train_url dep_abc = Some ''/train/timetable/raj-spl-12301/abc/55/66''"
    by (simp add: dep_abc_def)
  moreover have "find_all_a_href blk_abc = []"
    "next_siblings blk_abc
       = [\<lparr>is_reg_trnsumm_div = False, t_attr = None\<rparr>,
          \<lparr>is_reg_trnsumm_div = True, t_attr = Some ''abc''\<rparr>]"
    by (simp_all add: blk_abc_def)
  ultimately show ?thesis
    by (simp add: sample_blk_abc)
qed

text \<open>
  C4, amended. Every record emitted has a non-empty \<open>train_no\<close> and a non-empty \<open>name\<close>. A
  block is dropped exactly when one of the two is empty or absent, and the blocks before
  and after it are scanned all the same. \<open>internal_id\<close> is the second group of the
  timetable pattern in the \<open>href\<close> of the timetable anchor, which is a non-empty run of
  digits, or else, when there is no match, the attribute \<open>t\<close> of the first following
  sibling that is a \<open>div\<close> of class \<open>reg trnsumm\<close>, whatever its text. The link of a
  record is not \<open>None\<close> exactly when \<open>internal_id\<close> is a non-empty string, and it is then
  built from the slug, \<open>internal_id\<close>, the station and \<open>dest\<close>, where the slug is the
  first group of the pattern or, with no match, \<open>slugify\<close> of the name, a hyphen and the
  train number.
\<close>

theorem departures_named_and_linked_by_internal_id:
  "(\<forall>r \<in> set (departures sid dest blocks). truthy (d_train_no r) \<and> truthy (d_name r))
   \<and> departures sid dest (bs @ b # bs')
       = departures sid dest bs @ (case parse_block sid dest b of None \<Rightarrow> [] | Some r \<Rightarrow> [r])
           @ departures sid dest bs'
   \<and> (let cells = (if dest \<noteq> ''0'' then child_divs b else border_cells b);
          titled = (if dest \<noteq> ''0''
                    then find (\<lambda>a. sublist timetable_marker (href a)) (find_all_a_href b)
                    else if 1 < length cells then find_a_href (cells ! 1) else None);
          name = (case titled of
                    None \<Rightarrow> cell_text cells 1
                  | Some a \<Rightarrow> (case title a of
                                 None \<Rightarrow> cell_text cells 1
                               | Some ti \<Rightarrow> Some (title_name ti)))
      in parse_block sid dest b = None \<longleftrightarrow> \<not> truthy (cell_text cells 0) \<or> \<not> truthy name)
   \<and> (let m = (case find (\<lambda>a. sublist timetable_marker (href a)) (find_all_a_href b) of
                  None \<Rightarrow> None
                | Some a \<Rightarrow> re_search_timetable (href a));
          internal_id = (case m of
                           Some (slug, ident) \<Rightarrow> Some ident
                         | None \<Rightarrow> (case find is_reg_trnsumm_div (next_siblings b) of
                                      None \<Rightarrow> None
                                    | Some sb \<Rightarrow> t_attr sb))
      in (\<forall>slug ident. m = Some (slug, ident) \<longrightarrow>
            slug \<noteq> [] \<and> ident \<noteq> [] \<and> list_all isdigit ident)
         \<and> (\<forall>r. parse_block sid dest b = Some r \<longrightarrow>
               (d_train_url r \<noteq> None \<longleftrightarrow> truthy internal_id)
               \<and> (\<forall>ident. internal_id = Some ident \<and> ident \<noteq> [] \<longrightarrow>
                     (\<exists>name train_no. d_name r = Some name \<and> d_train_no r = Some train_no
                        \<and> d_train_url r
                            = Some (train_url_of
                                (case m of Some (slug, i) \<Rightarrow> slug
                                 | None \<Rightarrow> slugify (name @ ''-'' @ train_no))
                                ident sid dest)))))"
proof -
  have 1: "\<forall>r \<in> set (departures sid dest blocks). truthy (d_train_no r) \<and> truthy (d_name r)"
  proof
    fix r assume "r \<in> set (departures sid dest blocks)"
    then obtain b where "parse_block sid dest b = Some r" by (auto simp: departures_emitted)
    from parse_block_Some [OF this] show "truthy (d_train_no r) \<and> truthy (d_name r)"
      by (auto simp: truthy_def)
  qed
  have 2: "departures sid dest (bs @ b # bs')
       = departures sid dest bs @ (case parse_block sid dest b of None \<Rightarrow> [] | Some r \<Rightarrow> [r])
           @ departures sid dest bs'"
    by (simp add: departures_append split: option.splits)
  define m where "m = (case find (\<lambda>a. sublist timetable_marker (href a)) (find_all_a_href b) of
                  None \<Rightarrow> None
                | Some a \<Rightarrow> re_search_timetable (href a))"
  define internal_id where "internal_id = (case m of
                           Some (slug, ident) \<Rightarrow> Some ident
                         | None \<Rightarrow> (case find is_reg_trnsumm_div (next_siblings b) of
                                      None \<Rightarrow> None
                                    | Some sb \<Rightarrow> t_attr sb))"
  have ids: "block_ids b = (map_option fst m, internal_id)"
    by (simp add: block_ids_eq m_def [symmetric] internal_id_def Let_def split: option.splits)
  have 3: "slug \<noteq> [] \<and> ident \<noteq> [] \<and> list_all isdigit ident" if "m = Some (slug, ident)"
    for slug ident
    using that re_search_groups unfolding m_def by (auto split: option.splits)
  have 4: "(d_train_url r \<noteq> None \<longleftrightarrow> truthy internal_id)
       \<and> (\<forall>ident. internal_id = Some ident \<and> ident \<noteq> [] \<longrightarrow>
             (\<exists>name train_no. d_name r = Some name \<and> d_train_no r = Some train_no
                \<and> d_train_url r
                    = Some (train_url_of
                        (case m of Some (slug, i) \<Rightarrow> slug
                         | None \<Rightarrow> slugify (name @ ''-'' @ train_no))
                        ident sid dest)))"
    if "parse_block sid dest b = Some r" for r
    using parse_block_Some [OF that] 3
    by (cases m) (auto simp: ids truthy_def or_else_def split: option.splits)
  show ?thesis
    using 1 2 3 4 parse_block_dropped [of dest b sid]
    unfolding m_def internal_id_def Let_def by blast
qed

theorem departures_named_and_linked_by_internal_id_witness:
  "departures ''55'' ''66'' [blk, blk0, blk_abc] = [dep66, dep_abc]
   \<and> truthy (d_train_no dep_abc) \<and> truthy (d_name dep_abc)
   \<and> d_train_url dep_abc \<noteq> None
   \<and> d_train_url dep_abc
       = Some (train_url_of (slugify (''Raj (Spl)'' @ ''-'' @ ''12301'')) ''abc'' ''55'' ''66'')"
proof -
  have d: "departures ''55'' ''66'' [blk, blk0, blk_abc] = [dep66, dep_abc]"
    by (simp add: sample_blk_direct sample_blk0 sample_blk_abc)
  have n: "d_name dep_abc = Some ''Raj (Spl)''" "d_train_no dep_abc = Some ''12301''"
    by (simp_all add: dep_abc_def)
  have f: "find_all_a_href blk_abc = []"
    "find is_reg_trnsumm_div (next_siblings blk_abc)
       = Some \<lparr>is_reg_trnsumm_div = True, t_attr = Some ''abc''\<rparr>"
    by (simp_all add: blk_abc_def)
  from departures_named_and_linked_by_internal_id
         [of "''55''" "''66''" "[blk, blk0, blk_abc]" "[]" blk_abc "[]"]
       d n f sample_blk_abc
  show ?thesis by (simp add: truthy_def Let_def)
qed

lemma dropWhile_all: "list_all P xs \<Longrightarrow> dropWhile P xs = []"
  by (induction xs) auto

lemma strip_all_space: "list_all isspace d \<Longrightarrow> strip d = []"
  by (simp add: strip_def dropWhile_all)

lemma dest_param_zero:
  "dest_param v = ''0'' \<longleftrightarrow>
     strip (case v of None \<Rightarrow> [] | Some d \<Rightarrow> d) = []
     \<or> strip (case v of None \<Rightarrow> [] | Some d \<Rightarrow> d) = ''0''"
  by (auto simp: dest_param_def or_else_def)

text \<open>
  C10, as stated, fails on the code: the value is stripped before it is compared, so
  the value \<open>" 0"\<close>, which is neither empty nor whitespace only nor exactly \<open>"0"\<close>, is
  normalised to \<open>"0"\<close> as well and selects the routed layout.
\<close>

theorem dest_param_padded_zero_counterexample:
  "'' 0'' \<noteq> [] \<and> \<not> list_all isspace '' 0'' \<and> '' 0'' \<noteq> ''0''
   \<and> dest_param (Some '' 0'') = ''0''"
  by (simp add: dest_param_def or_else_def strip_def isspace_def)

text \<open>
  C10, amended. A destination whose text, stripped of surrounding whitespace, is empty
  or \<open>"0"\<close> is normalised to \<open>"0"\<close> and selects the routed layout; this covers a missing, an
  empty and a whitespace-only value and the literal \<open>"0"\<close>. Every other value is
  normalised to its stripped text and selects the direct layout. So no destination
  whose identifier is \<open>"0"\<close> can be expressed.
\<close>

theorem dest_param_selects_layout:
  "(dest_param v = ''0'' \<longleftrightarrow>
      strip (case v of None \<Rightarrow> [] | Some d \<Rightarrow> d) = []
      \<or> strip (case v of None \<Rightarrow> [] | Some d \<Rightarrow> d) = ''0'')
   \<and> dest_param None = ''0'' \<and> dest_param (Some []) = ''0''
   \<and> (list_all isspace d \<longrightarrow> dest_param (Some d) = ''0'')
   \<and> dest_param (Some ''0'') = ''0''
   \<and> (dest_param v = ''0'' \<longrightarrow> read_cells (dest_param v) b = read_routed b)
   \<and> (dest_param v \<noteq> ''0'' \<longrightarrow>
        dest_param v = strip (case v of None \<Rightarrow> [] | Some d \<Rightarrow> d)
        \<and> read_cells (dest_param v) b = read_direct b (find_name_anchor b))"
proof -
  have a: "dest_param None = ''0''" "dest_param (Some []) = ''0''"
    by (simp_all add: dest_param_def or_else_def strip_def)
  have b: "list_all isspace d \<Longrightarrow> dest_param (Some d) = ''0''"
    by (simp add: dest_param_zero strip_all_space)
  have c: "dest_param (Some ''0'') = ''0''"
    by (simp add: dest_param_def or_else_def strip_def isspace_def)
  have d: "dest_param v \<noteq> ''0'' \<Longrightarrow> dest_param v = strip (case v of None \<Rightarrow> [] | Some d \<Rightarrow> d)"
    by (auto simp: dest_param_def or_else_def split: if_splits)
  show ?thesis
    using a b c d dest_param_zero [of v] by (simp add: read_cells_def)
qed

theorem dest_param_selects_layout_witness:
  "list_all isspace ''  '' \<and> dest_param (Some ''  '') = ''0''
   \<and> dest_param (Some '' 0 '') = ''0''
   \<and> read_cells (dest_param (Some '' 0 '')) blk = read_routed blk
   \<and> dest_param (Some '' 66 '') = ''66''
   \<and> read_cells (dest_param (Some '' 66 '')) blk = read_direct blk (find_name_anchor blk)"
proof -
  have s: "strip '' 0 '' = ''0''" "strip '' 66 '' = ''66''" "list_all isspace ''  ''"
    by (simp_all add: strip_def isspace_def)
  from dest_param_selects_layout [of "Some '' 0 ''" "''  ''" blk]
       dest_param_selects_layout [of "Some '' 66 ''" "''  ''" blk] s
  show ?thesis by simp
qed

section \<open>Properties of the timetable\<close>

lemma timetable_stop_eq:
  "timetable_stop row =
     Inr (if length (parent_child_divs row) < 17 then None else Some (timetable_row_of row))"
  by (simp add: timetable_stop_def timetable_row_of_def item_def and_then_def Let_def)

lemma timetable_loop_eq:
  "timetable_loop rows acc =
     Inr (acc @ map timetable_row_of (filter (\<lambda>row. 17 \<le> length (parent_child_divs row)) rows))"
  by (induction rows arbitrary: acc) (simp_all add: timetable_stop_eq and_then_def)

text \<open>
  C6. The timetable extraction never raises. It emits one row for each stop marker whose
  parent has at least 17 direct child cells, in order, and nothing for a marker whose
  parent has fewer, which does not disturb the rows before and after it. Each row has
  \<open>code\<close> from cell 2, \<open>station_name\<close> from cell 3, \<open>arrives\<close> from cell 6, \<open>departs\<close> from
  cell 8 and \<open>platform\<close> from cell 11.
\<close>

theorem timetable_rows_need_17_cells:
  "timetable rows =
     Inr (map timetable_row_of (filter (\<lambda>row. 17 \<le> length (parent_child_divs row)) rows))
   \<and> (let cells = parent_child_divs row; r = timetable_row_of row
      in tt_code r = get_text (cells ! 2) \<and> tt_station_name r = get_text (cells ! 3)
         \<and> tt_arrives r = get_text (cells ! 6) \<and> tt_departs r = get_text (cells ! 8)
         \<and> tt_platform r = get_text (cells ! 11))
   \<and> (length (parent_child_divs row) < 17 \<longrightarrow> timetable (before @ row # after)
         = timetable (before @ after))"
proof -
  have "timetable rows =
     Inr (map timetable_row_of (filter (\<lambda>row. 17 \<le> length (parent_child_divs row)) rows))"
    for rows
    by (simp add: timetable_def timetable_loop_eq)
  then show ?thesis by (simp add: timetable_row_of_def Let_def)
qed

lemma stop_lengths: "length (parent_child_divs stop17) = 17" "length (parent_child_divs stop16) = 16"
  by (simp_all add: stop17_def stop16_def cells17_def)

theorem timetable_rows_need_17_cells_witness:
  "length (parent_child_divs stop16) < 17
   \<and> timetable [stop16, stop17, stop16]
     = Inr [\<lparr>tt_code = ''HWH'', tt_station_name = ''Howrah Jn'', tt_arrives = ''16:40'',
             tt_departs = ''16:50'', tt_platform = ''9''\<rparr>]
   \<and> timetable ([stop17] @ stop16 # [stop17]) = timetable ([stop17] @ [stop17])"
proof -
  have r: "timetable_row_of stop17 = \<lparr>tt_code = ''HWH'', tt_station_name = ''Howrah Jn'',
      tt_arrives = ''16:40'', tt_departs = ''16:50'', tt_platform = ''9''\<rparr>"
    by (simp add: timetable_row_of_def stop17_def cells17_def)
  from timetable_rows_need_17_cells [of "[stop16, stop17, stop16]" stop16 "[stop17]" "[stop17]"]
    stop_lengths r
  show ?thesis by simp
qed

section \<open>Properties of geocoding\<close>

text \<open>
  C5, as stated, fails on the code: a response with a status other than 200 and a
  successful response with no result give the same \<open>None\<close>, and the handler answers
  both with the same 502.
\<close>

theorem geocode_not_found_same_as_bad_status_counterexample:
  "status_code resp_503 \<noteq> 200 \<and> status_code resp_empty = 200 \<and> json resp_empty = Inr []
   \<and> geocode_station (Inr resp_empty) = geocode_station (Inr resp_503)
   \<and> station_map_geocode (Inr resp_empty) = station_map_geocode (Inr resp_503)"
  by (simp add: geocode_station_def station_map_geocode_def and_then_def resp_empty_def resp_503_def)

text \<open>
  C5, amended. A successful response with no result makes \<open>geocode_station\<close> return
  \<open>None\<close>, a value and not an exception, and the handler answers 502 "Geocoding failed".
  A response with a status other than 200 gives the same \<open>None\<close> and the same answer. These
  are the only two ways to \<open>None\<close>. An exception of the HTTP call (a timeout or a
  transport failure) is not turned into \<open>None\<close>: it propagates.
\<close>

theorem geocode_none_for_no_result_and_bad_status:
  "(status_code r = 200 \<and> json r = Inr [] \<longrightarrow>
      geocode_station (Inr r) = Inr None
      \<and> station_map_geocode (Inr r) = Inr (Respond 502 ''Geocoding failed''))
   \<and> (status_code r \<noteq> 200 \<longrightarrow>
      geocode_station (Inr r) = Inr None
      \<and> station_map_geocode (Inr r) = Inr (Respond 502 ''Geocoding failed''))
   \<and> geocode_station (Inl e) = Inl e \<and> station_map_geocode (Inl e) = Inl e
   \<and> (geocode_station got = Inr None \<longleftrightarrow>
        (\<exists>r. got = Inr r \<and> (status_code r \<noteq> 200 \<or> json r = Inr [])))"
  by (cases got)
    (auto simp: geocode_station_def station_map_geocode_def and_then_def item_def
       split: sum.splits)

theorem geocode_none_for_no_result_and_bad_status_witness:
  "geocode_station (Inr resp_empty) = Inr None
   \<and> station_map_geocode (Inr resp_empty) = Inr (Respond 502 ''Geocoding failed'')
   \<and> geocode_station (Inr resp_503) = Inr None
   \<and> station_map_geocode (Inr resp_503) = Inr (Respond 502 ''Geocoding failed'')
   \<and> station_map_geocode (Inl RequestException) = Inl RequestException"
  using geocode_none_for_no_result_and_bad_status [of resp_empty RequestException "Inr resp_empty"]
    geocode_none_for_no_result_and_bad_status [of resp_503 RequestException "Inr resp_503"]
  by (simp add: resp_empty_def resp_503_def)

section \<open>Properties of the Overpass results\<close>

lemma parse_overpass_concat:
  "parse_overpass_result els
     = concat (map (\<lambda>el. case element_poi el of None \<Rightarrow> [] | Some p \<Rightarrow> [p]) els)"
  by (induction els) (auto split: option.splits)

lemma element_poi_None:
  "element_poi el = None \<longleftrightarrow>
     el_type el \<noteq> Some ''node'' \<and> (el_center el = None \<or> el_center el = Some [])"
  by (auto simp: element_poi_def Let_def split: option.splits if_splits prod.splits)

lemma element_poi_flag:
  assumes "element_poi el = Some p"
  shows "poi_tags p = (case el_tags el of None \<Rightarrow> [] | Some t \<Rightarrow> t)
     \<and> poi_emergency p = emergency_of (case el_tags el of None \<Rightarrow> [] | Some t \<Rightarrow> t)"
  using assms
  by (auto simp: element_poi_def Let_def split: option.splits if_splits prod.splits)

lemma emergency_of_eq:
  "emergency_of tags \<longleftrightarrow>
     sublist ''police'' (case map_of tags ''amenity'' of None \<Rightarrow> [] | Some v \<Rightarrow> v)
     \<or> sublist ''hospital'' (case map_of tags ''amenity'' of None \<Rightarrow> [] | Some v \<Rightarrow> v)
     \<or> (\<exists>v. v \<noteq> [] \<and> (map_of tags ''emergency'' = Some v
            \<or> map_of tags ''emergency_phone'' = Some v
            \<or> map_of tags ''contact:phone'' = Some v))"
  by (auto simp: emergency_of_def get_or_def truthy_def split: option.splits)

text \<open>
  C9, as stated, fails on the code: the three tags are tested for their truth value,
  not for their presence, so an element whose \<open>emergency\<close> tag is present with an empty
  value is not flagged.
\<close>

theorem emergency_flag_empty_tag_counterexample:
  "''emergency'' \<in> dom (map_of [(''emergency'', [])])
   \<and> parse_overpass_result [el_node [(''emergency'', [])]]
       = [\<lparr>poi_id = Some 1, poi_osm_type = Some ''node'', poi_name = [], poi_type = ''other'',
            poi_lat = 12.9, poi_lon = 77.6, poi_tags = [(''emergency'', [])],
            poi_emergency = False\<rparr>]"
  by (simp add: el_node_def element_poi_def emergency_of_def get_or_def truthy_def or_else_def
      type_parts_def type_keys_def)

text \<open>
  C9, amended. The result holds one entry for each element that is a node or has a
  non-empty center, in order, with the element's tags, and the flag of the entry is true
  exactly when the value of the element's \<open>amenity\<close> tag contains \<open>police\<close> or \<open>hospital\<close>, or
  one of its tags \<open>emergency\<close>, \<open>emergency_phone\<close>, \<open>contact:phone\<close> is present with a
  non-empty value. So \<open>{amenity: "hospital"}\<close> gives true, \<open>{amenity: "bus_stop"}\<close> gives
  false, and a non-empty \<open>contact:phone\<close> gives true whatever the other tags are.
\<close>

theorem emergency_flag_of_element_tags:
  "parse_overpass_result els
     = concat (map (\<lambda>el. case element_poi el of None \<Rightarrow> [] | Some p \<Rightarrow> [p]) els)
   \<and> (element_poi el = None \<longleftrightarrow>
        el_type el \<noteq> Some ''node'' \<and> (el_center el = None \<or> el_center el = Some []))
   \<and> (\<forall>p. element_poi el = Some p \<longrightarrow>
        (let tags = (case el_tags el of None \<Rightarrow> [] | Some t \<Rightarrow> t);
             amenity = (case map_of tags ''amenity'' of None \<Rightarrow> [] | Some v \<Rightarrow> v)
         in poi_tags p = tags
            \<and> (poi_emergency p \<longleftrightarrow>
                 sublist ''police'' amenity \<or> sublist ''hospital'' amenity
                 \<or> (\<exists>v. v \<noteq> [] \<and> (map_of tags ''emergency'' = Some v
                        \<or> map_of tags ''emergency_phone'' = Some v
                        \<or> map_of tags ''contact:phone'' = Some v)))))
   \<and> (el_type el = Some ''node'' \<longrightarrow>
        (el_tags el = Some [(''amenity'', ''hospital'')] \<longrightarrow>
           map poi_emergency (parse_overpass_result [el]) = [True])
        \<and> (el_tags el = Some [(''amenity'', ''bus_stop'')] \<longrightarrow>
           map poi_emergency (parse_overpass_result [el]) = [False])
        \<and> (phone \<noteq> [] \<and> el_tags el = Some ((''contact:phone'', phone) # tags) \<longrightarrow>
           map poi_emergency (parse_overpass_result [el]) = [True]))"
proof -
  have a: "let tags = (case el_tags el of None \<Rightarrow> [] | Some t \<Rightarrow> t);
             amenity = (case map_of tags ''amenity'' of None \<Rightarrow> [] | Some v \<Rightarrow> v)
         in poi_tags p = tags
            \<and> (poi_emergency p \<longleftrightarrow>
                 sublist ''police'' amenity \<or> sublist ''hospital'' amenity
                 \<or> (\<exists>v. v \<noteq> [] \<and> (map_of tags ''emergency'' = Some v
                        \<or> map_of tags ''emergency_phone'' = Some v
                        \<or> map_of tags ''contact:phone'' = Some v)))"
    if "element_poi el = Some p" for p
    using element_poi_flag [OF that] by (simp add: Let_def emergency_of_eq)
  have n: "\<exists>p. element_poi el = Some p" if "el_type el = Some ''node''"
    using that element_poi_None [of el] by (cases "element_poi el") auto
  have f: "map poi_emergency (parse_overpass_result [el])
      = [emergency_of (case el_tags el of None \<Rightarrow> [] | Some t \<Rightarrow> t)]"
    if "el_type el = Some ''node''"
    using n [OF that] element_poi_flag [of el] by auto
  have "\<not> sublist ''police'' ''bus_stop''" "\<not> sublist ''hospital'' ''bus_stop''"
    "sublist ''hospital'' ''hospital''"
    by code_simp+
  then have e: "emergency_of [(''amenity'', ''hospital'')]"
    "\<not> emergency_of [(''amenity'', ''bus_stop'')]"
    "phone \<noteq> [] \<Longrightarrow> emergency_of ((''contact:phone'', phone) # tags)"
    by (simp_all add: emergency_of_def get_or_def truthy_def)
  show ?thesis
    using a e f parse_overpass_concat [of els] element_poi_None [of el]
    by (simp add: Let_def)
qed

theorem emergency_flag_of_element_tags_witness:
  "map poi_emergency
     (parse_overpass_result
        [el_node [(''amenity'', ''hospital'')], el_node [(''amenity'', ''bus_stop'')],
         el_node [(''contact:phone'', ''+91 1''), (''amenity'', ''bus_stop'')],
         el_node [(''emergency_phone'', ''112'')]])
   = [True, False, True, True]"
proof -
  have t: "el_type (el_node ts) = Some ''node''" "el_tags (el_node ts) = Some ts" for ts
    by (simp_all add: el_node_def)
  have s: "parse_overpass_result (a # b # c # d # [])
      = parse_overpass_result [a] @ parse_overpass_result [b] @ parse_overpass_result [c]
          @ parse_overpass_result [d]" for a b c d
    by (simp split: option.splits)
  have 1: "map poi_emergency (parse_overpass_result [el_node [(''amenity'', ''hospital'')]])
      = [True]"
    using emergency_flag_of_element_tags [of "[]" "el_node [(''amenity'', ''hospital'')]" "''1''" "[]"] t
    by simp
  have 2: "map poi_emergency (parse_overpass_result [el_node [(''amenity'', ''bus_stop'')]])
      = [False]"
    using emergency_flag_of_element_tags [of "[]" "el_node [(''amenity'', ''bus_stop'')]" "''1''" "[]"] t
    by simp
  have 3: "map poi_emergency (parse_overpass_result
        [el_node [(''contact:phone'', ''+91 1''), (''amenity'', ''bus_stop'')]]) = [True]"
    using emergency_flag_of_element_tags
      [of "[]" "el_node [(''contact:phone'', ''+91 1''), (''amenity'', ''bus_stop'')]" "''+91 1''"
        "[(''amenity'', ''bus_stop'')]"] t
    by simp
  have "\<exists>p. parse_overpass_result [el_node [(''emergency_phone'', ''112'')]] = [p]
       \<and> poi_emergency p"
    using emergency_flag_of_element_tags
      [of "[el_node [(''emergency_phone'', ''112'')]]" "el_node [(''emergency_phone'', ''112'')]"
        "''1''" "[]"] t
    by (cases "element_poi (el_node [(''emergency_phone'', ''112'')])") (auto simp: Let_def)
  then have 4: "map poi_emergency (parse_overpass_result
        [el_node [(''emergency_phone'', ''112'')]]) = [True]"
    by auto
  show ?thesis unfolding s using 1 2 3 4 by simp
qed

end
